theory Spec2Isabelle
  imports Complex_Main
begin

section \<open>Values of the raw payload\<close>

text \<open>
  The cloud call returns a parsed JSON document. Python keeps such a document as nested
  \<^verbatim>\<open>dict\<close>, \<^verbatim>\<open>list\<close>, \<^verbatim>\<open>str\<close>, \<^verbatim>\<open>int\<close>, \<^verbatim>\<open>float\<close>, \<^verbatim>\<open>bool\<close> and \<^verbatim>\<open>None\<close>
  values. A \<^verbatim>\<open>dict\<close> is kept as an association list that is read with \<open>map_of\<close>; its
  keys are strings, as JSON has them. A Python float is a finite IEEE 754 double and
  \<open>JFloat r\<close> carries the real number it denotes; a division is rounded to a double, as
  Python rounds it. Infinities, NaN and the sign of zero are not part of the model.
\<close>

datatype json =
    JNone
  | JBool bool
  | JInt int
  | JFloat real
  | JStr string
  | JList "json list"
  | JDict "(string \<times> json) list"

text \<open>Exceptions of the program, all of them subclasses of \<^verbatim>\<open>Exception\<close>.\<close>

datatype py_error =
    ValueError
  | KeyError
  | TypeError
  | OverflowError
  | CloudError
  | SqliteError

text \<open>Truth value testing, as \<^verbatim>\<open>not x\<close> and \<^verbatim>\<open>if x\<close> perform it.\<close>

fun truthy :: "json \<Rightarrow> bool" where
  "truthy JNone = False"
| "truthy (JBool b) = b"
| "truthy (JInt i) = (i \<noteq> 0)"
| "truthy (JFloat r) = (r \<noteq> 0)"
| "truthy (JStr s) = (s \<noteq> [])"
| "truthy (JList xs) = (xs \<noteq> [])"
| "truthy (JDict kvs) = (kvs \<noteq> [])"

section \<open>The telemetry snapshot\<close>

text \<open>
  The dataclass \<^verbatim>\<open>TuyaSmartPlug\<close>. Python does not enforce the annotations of a
  dataclass: \<^verbatim>\<open>from_raw\<close> stores whatever value the payload carries for the five codes it
  passes through, so these fields hold payload values. The three electrical readings are
  results of a true division and hence floats. The field \<^verbatim>\<open>power\<close> is named \<open>power_on\<close>
  here.
\<close>

record TuyaSmartPlug =
  power_on :: json
  countdown_1_s :: json
  energy_wh :: json
  current_a :: real
  voltage_v :: real
  power_w :: real
  fault_code :: json
  relay_status :: json

section \<open>Building a snapshot from the raw payload\<close>

text \<open>
  The operations of Python that \<^verbatim>\<open>from_raw\<close> applies to payload values, each with the
  exception it raises. Iterating a \<^verbatim>\<open>dict\<close> yields its keys, iterating a \<^verbatim>\<open>str\<close> its
  characters; the other scalars are not iterable.
\<close>

fun py_iter :: "json \<Rightarrow> py_error + json list" where
  "py_iter (JList xs) = Inr xs"
| "py_iter (JDict kvs) = Inr (map (\<lambda>kv. JStr (fst kv)) kvs)"
| "py_iter (JStr s) = Inr (map (\<lambda>c. JStr [c]) s)"
| "py_iter JNone = Inl TypeError"
| "py_iter (JBool b) = Inl TypeError"
| "py_iter (JInt i) = Inl TypeError"
| "py_iter (JFloat r) = Inl TypeError"

text \<open>\<^verbatim>\<open>item[key]\<close> for a string key: only a \<^verbatim>\<open>dict\<close> can be read that way.\<close>

fun subscript :: "json \<Rightarrow> string \<Rightarrow> py_error + json" where
  "subscript (JDict kvs) k = (case map_of kvs k of None \<Rightarrow> Inl KeyError | Some v \<Rightarrow> Inr v)"
| "subscript JNone k = Inl TypeError"
| "subscript (JBool b) k = Inl TypeError"
| "subscript (JInt i) k = Inl TypeError"
| "subscript (JFloat r) k = Inl TypeError"
| "subscript (JStr s) k = Inl TypeError"
| "subscript (JList xs) k = Inl TypeError"

text \<open>A key of a \<^verbatim>\<open>dict\<close> must be hashable.\<close>

fun hashable :: "json \<Rightarrow> bool" where
  "hashable (JList xs) = False"
| "hashable (JDict kvs) = False"
| "hashable JNone = True"
| "hashable (JBool b) = True"
| "hashable (JInt i) = True"
| "hashable (JFloat r) = True"
| "hashable (JStr s) = True"

text \<open>
  The comprehension \<^verbatim>\<open>{item["code"]: item["value"] for item in ...}\<close>. The dictionary
  \<open>dps\<close> under construction is an association list with the newest binding in front, so
  that a later item overrides an earlier one with the same code. The program reads it at string
  keys only.
\<close>

fun build_dps :: "json list \<Rightarrow> (json \<times> json) list \<Rightarrow> py_error + (json \<times> json) list" where
  "build_dps [] dps = Inr dps"
| "build_dps (item # items) dps =
     (case subscript item ''code'' of
        Inl e \<Rightarrow> Inl e
      | Inr k \<Rightarrow>
          (case subscript item ''value'' of
             Inl e \<Rightarrow> Inl e
           | Inr v \<Rightarrow>
               if hashable k then build_dps items ((k, v) # dps) else Inl TypeError))"

text \<open>\<^verbatim>\<open>d.get(key, default)\<close> on the payload and on \<open>dps\<close>.\<close>

definition raw_get :: "(string \<times> json) list \<Rightarrow> string \<Rightarrow> json \<Rightarrow> json" where
  "raw_get raw k d = (case map_of raw k of None \<Rightarrow> d | Some v \<Rightarrow> v)"

definition dps_get :: "(json \<times> json) list \<Rightarrow> string \<Rightarrow> json \<Rightarrow> json" where
  "dps_get dps k d = (case map_of dps (JStr k) of None \<Rightarrow> d | Some v \<Rightarrow> v)"

text \<open>
  A Python float is an IEEE 754 double. The model keeps it as the real number it denotes.
  A division of floats or of integers returns the double nearest to the quotient, with ties
  going to the even significand: \<open>nearest_double\<close>. The significand has 53 bits, and the
  exponent of the unit in the last place does not go below that of the subnormal numbers.
\<close>

fun bit_length :: "nat \<Rightarrow> nat" where
  "bit_length n = (if n = 0 then 0 else Suc (bit_length (n div 2)))"

declare bit_length.simps [simp del]

text \<open>The largest \<open>e\<close> with \<open>2 ^ e \<le> x\<close>, for a positive \<open>x\<close>.\<close>

definition floor_log2 :: "real \<Rightarrow> int" where
  "floor_log2 x =
     (if 1 \<le> x then int (bit_length (nat \<lfloor>x\<rfloor>)) - 1
      else - int (bit_length (nat (\<lceil>1 / x\<rceil> - 1))))"

definition pow2 :: "int \<Rightarrow> real" where
  "pow2 k = (if 0 \<le> k then 2 ^ nat k else 1 / 2 ^ nat (- k))"

definition round_half_even :: "real \<Rightarrow> int" where
  "round_half_even x =
     (let f = \<lfloor>x\<rfloor>; r = x - of_int f
      in if r < 1 / 2 then f
         else if 1 / 2 < r then f + 1
         else if even f then f
         else f + 1)"

definition nearest_double :: "real \<Rightarrow> real" where
  "nearest_double x =
     (if x = 0 then 0
      else
        let a = \<bar>x\<bar>;
            e = max (floor_log2 a) (- 1022);
            ulp = pow2 (e - 52)
        in sgn x * of_int (round_half_even (a / ulp)) * ulp)"

text \<open>
  True division of an integer by an integer literal: the nearest double, or
  \<^verbatim>\<open>OverflowError\<close> when that is beyond the largest double, which is the case from
  \<open>2 ^ 1024\<close> on.
\<close>

definition int_truediv :: "int \<Rightarrow> int \<Rightarrow> py_error + real" where
  "int_truediv i d =
     (let q = nearest_double (of_int i / of_int d)
      in if 1024 \<le> floor_log2 \<bar>q\<bar> then Inl OverflowError else Inr q)"

text \<open>
  True division \<^verbatim>\<open>x / d\<close> by a positive integer literal. A \<^verbatim>\<open>bool\<close> is an integer; a
  float divided by an integer is the nearest double of the quotient and raises nothing.
\<close>

fun truediv :: "json \<Rightarrow> int \<Rightarrow> py_error + real" where
  "truediv (JInt i) d = int_truediv i d"
| "truediv (JFloat r) d = Inr (nearest_double (r / of_int d))"
| "truediv (JBool b) d = int_truediv (if b then 1 else 0) d"
| "truediv JNone d = Inl TypeError"
| "truediv (JStr s) d = Inl TypeError"
| "truediv (JList xs) d = Inl TypeError"
| "truediv (JDict kvs) d = Inl TypeError"

text \<open>The dictionary \<open>dps\<close> of a payload.\<close>

definition read_dps :: "(string \<times> json) list \<Rightarrow> py_error + (json \<times> json) list" where
  "read_dps raw =
     (case py_iter (raw_get raw ''result'' (JList [])) of
        Inl e \<Rightarrow> Inl e
      | Inr items \<Rightarrow> build_dps items [])"

text \<open>
  \<^verbatim>\<open>TuyaSmartPlug.from_raw(raw)\<close>. The keyword arguments are evaluated in the order they
  are written, so the first failing division decides the exception.
\<close>

definition from_raw :: "(string \<times> json) list \<Rightarrow> py_error + TuyaSmartPlug" where
  "from_raw raw =
     (if \<not> truthy (raw_get raw ''success'' JNone) then Inl ValueError
      else
        case read_dps raw of
          Inl e \<Rightarrow> Inl e
        | Inr dps \<Rightarrow>
            (case truediv (dps_get dps ''cur_current'' (JInt 0)) 1000 of
               Inl e \<Rightarrow> Inl e
             | Inr c \<Rightarrow>
                 (case truediv (dps_get dps ''cur_voltage'' (JInt 0)) 10 of
                    Inl e \<Rightarrow> Inl e
                  | Inr v \<Rightarrow>
                      (case truediv (dps_get dps ''cur_power'' (JInt 0)) 10 of
                         Inl e \<Rightarrow> Inl e
                       | Inr p \<Rightarrow>
                           Inr \<lparr> power_on = dps_get dps ''switch_1'' (JBool False),
                                 countdown_1_s = dps_get dps ''countdown_1'' (JInt 0),
                                 energy_wh = dps_get dps ''add_ele'' (JInt 0),
                                 current_a = c,
                                 voltage_v = v,
                                 power_w = p,
                                 fault_code = dps_get dps ''fault'' (JInt 0),
                                 relay_status = dps_get dps ''relay_status'' (JStr ''unknown'') \<rparr>))))"






section \<open>The state classifier\<close>

text \<open>
  \<^verbatim>\<open>evaluate_plug_state(plug, threshold)\<close>: the pair of the plug state and the device
  state, both the strings \<^verbatim>\<open>"On"\<close> or \<^verbatim>\<open>"Off"\<close>. The threshold is a float option of the
  command line.
\<close>

definition evaluate_plug_state :: "TuyaSmartPlug \<Rightarrow> real \<Rightarrow> string \<times> string" where
  "evaluate_plug_state plug threshold =
     (let plug_state = (if truthy (power_on plug) then ''On'' else ''Off'');
          device_state =
            (if \<not> truthy (power_on plug) then ''Off''
             else if power_w plug > threshold then ''On''
             else ''Off'')
      in (plug_state, device_state))"

section \<open>The history store\<close>

text \<open>
  A timestamp is written to the database as the ISO text of a UTC time with a precision of
  seconds, \<^verbatim>\<open>datetime.now(timezone.utc).isoformat(timespec="seconds")\<close>. It is modelled by the
  instant that this text denotes: the number of whole seconds since 1970-01-01T00:00:00+00:00.
\<close>

type_synonym instant = int

text \<open>
  A row of \<^verbatim>\<open>event_log\<close>, with the columns in the order of the table. The columns that
  share a name with a field of the snapshot or with a column of \<^verbatim>\<open>status_log\<close> carry the
  prefix \<open>ev\<close>.
\<close>

record event_row =
  recorded_at :: instant
  ev_plug_state :: string
  ev_device_state :: string
  plug_power :: int
  countdown_s :: json
  ev_energy_wh :: json
  ev_current_a :: real
  ev_voltage_v :: real
  ev_power_w :: real
  ev_relay_status :: json
  ev_fault_code :: json

text \<open>A row of \<^verbatim>\<open>status_log\<close>; the column \<^verbatim>\<open>end\<close> is named \<open>end_at\<close>.\<close>

record status_row =
  start :: instant
  end_at :: instant
  plug_state :: string
  device_state :: string

text \<open>
  The database file. Each table is the list of its rows in the order of their insertion. The
  program never deletes a row, so SQLite numbers the rows 1, 2, 3, ... as they are inserted:
  the row with \<^verbatim>\<open>rowid\<close> \<open>n\<close> is the element of index \<open>n - 1\<close>.
\<close>

record store =
  event_log :: "event_row list"
  status_log :: "status_row list"

text \<open>The statements of the program that change the database.\<close>

datatype db_write =
    InsertEvent event_row
  | UpdateEnd nat instant
  | InsertStatus status_row

fun apply_write :: "db_write \<Rightarrow> store \<Rightarrow> store" where
  "apply_write (InsertEvent ev) s = s\<lparr> event_log := event_log s @ [ev] \<rparr>"
| "apply_write (UpdateEnd rowid t) s =
     (if 0 < rowid \<and> rowid \<le> length (status_log s)
      then s\<lparr> status_log :=
               (status_log s)[rowid - 1 := (status_log s ! (rowid - 1))\<lparr> end_at := t \<rparr>] \<rparr>
      else s)"
| "apply_write (InsertStatus row) s = s\<lparr> status_log := status_log s @ [row] \<rparr>"

text \<open>
  \<^verbatim>\<open>SELECT rowid, plug_state, device_state FROM status_log ORDER BY rowid DESC LIMIT 1\<close>
  followed by \<^verbatim>\<open>fetchone()\<close>.
\<close>

definition select_last :: "store \<Rightarrow> (nat \<times> string \<times> string) option" where
  "select_last s =
     (if status_log s = [] then None
      else Some (length (status_log s),
                 plug_state (last (status_log s)),
                 device_state (last (status_log s))))"

section \<open>What a run of the program receives from outside\<close>

text \<open>
  The steps at which the database library can raise, for a reason outside the program
  (a missing or locked file, a full disk).
\<close>

datatype db_step =
    Connect
  | ExecInsertEvent
  | ExecSelectLast
  | ExecUpdateEnd
  | ExecInsertStatus
  | ExecSelectHistory
  | Commit

text \<open>
  One invocation of the command line reads the following from its surroundings:
  whether \<^verbatim>\<open>ensure_db()\<close> raises; the clock; what \<^verbatim>\<open>cloud.getstatus\<close> returns or raises;
  which database steps raise; Python's conversion of a string to an integer (\<open>None\<close> where it
  raises \<^verbatim>\<open>ValueError\<close>); and the offset of \<^verbatim>\<open>LOCAL_TZ\<close> from UTC in seconds.
\<close>

record env =
  ensure_db_error :: "py_error option"
  now :: instant
  getstatus :: "py_error + (string \<times> json) list"
  db_error :: "db_step \<Rightarrow> py_error option"
  int_of_str :: "string \<Rightarrow> int option"
  local_tz :: int

definition fetch_plug :: "env \<Rightarrow> py_error + TuyaSmartPlug" where
  "fetch_plug e = (case getstatus e of Inl err \<Rightarrow> Inl err | Inr raw \<Rightarrow> from_raw raw)"

text \<open>\<^verbatim>\<open>int(x)\<close>: a float is truncated towards zero.\<close>

fun py_int :: "(string \<Rightarrow> int option) \<Rightarrow> json \<Rightarrow> py_error + int" where
  "py_int p (JBool b) = Inr (if b then 1 else 0)"
| "py_int p (JInt i) = Inr i"
| "py_int p (JFloat r) = Inr (if 0 \<le> r then \<lfloor>r\<rfloor> else \<lceil>r\<rceil>)"
| "py_int p (JStr s) = (case p s of None \<Rightarrow> Inl ValueError | Some i \<Rightarrow> Inr i)"
| "py_int p JNone = Inl TypeError"
| "py_int p (JList xs) = Inl TypeError"
| "py_int p (JDict kvs) = Inl TypeError"

text \<open>
  Binding a payload value to a parameter of a statement: a list or a dictionary is not
  supported, an integer must fit 64 bits.
\<close>

fun bind_error :: "json \<Rightarrow> py_error option" where
  "bind_error (JList xs) = Some SqliteError"
| "bind_error (JDict kvs) = Some SqliteError"
| "bind_error (JInt i) = (if - (2 ^ 63) \<le> i \<and> i < 2 ^ 63 then None else Some OverflowError)"
| "bind_error JNone = None"
| "bind_error (JBool b) = None"
| "bind_error (JFloat r) = None"
| "bind_error (JStr s) = None"

text \<open>
  The parameters of a statement are bound in their order; afterwards the statement runs, and
  a \<^verbatim>\<open>None\<close> violates the \<^verbatim>\<open>NOT NULL\<close> constraint that every column has.
\<close>

fun bind_all :: "json list \<Rightarrow> py_error option" where
  "bind_all [] = None"
| "bind_all (v # vs) = (case bind_error v of Some e \<Rightarrow> Some e | None \<Rightarrow> bind_all vs)"

definition not_null_error :: "json list \<Rightarrow> py_error option" where
  "not_null_error vs = (if JNone \<in> set vs then Some SqliteError else None)"

section \<open>Recording a sample\<close>

text \<open>The lines that the commands log.\<close>

datatype log_entry =
    Info_updated_existing string string
  | Info_logged_new string string
  | Error_failed_to_record py_error
  | Error_failed_to_load py_error

text \<open>
  The state of a \<^verbatim>\<open>with sqlite3.connect(...)\<close> block while it runs: the exception that
  left the block, if any; the database as the connection sees it; the writes executed so far;
  and the lines logged so far.
\<close>

record run =
  raised :: "py_error option"
  db :: store
  writes :: "db_write list"
  logged :: "log_entry list"

text \<open>
  The \<^verbatim>\<open>INSERT INTO event_log\<close>. Its tuple of parameters is built first, which evaluates
  \<^verbatim>\<open>int(plug.power)\<close>; then the statement is executed.
\<close>

definition exec_insert_event ::
  "env \<Rightarrow> TuyaSmartPlug \<Rightarrow> string \<Rightarrow> string \<Rightarrow> py_error + event_row" where
  "exec_insert_event e plug plug_st device_st =
     (case py_int (int_of_str e) (power_on plug) of
        Inl err \<Rightarrow> Inl err
      | Inr p \<Rightarrow>
          (let params = [JInt p, countdown_1_s plug, energy_wh plug,
                         relay_status plug, fault_code plug]
           in case db_error e ExecInsertEvent of
                Some err \<Rightarrow> Inl err
              | None \<Rightarrow>
                  (case bind_all params of
                     Some err \<Rightarrow> Inl err
                   | None \<Rightarrow>
                       (case not_null_error params of
                          Some err \<Rightarrow> Inl err
                        | None \<Rightarrow>
                            Inr \<lparr> recorded_at = now e,
                                  ev_plug_state = plug_st,
                                  ev_device_state = device_st,
                                  plug_power = p,
                                  countdown_s = countdown_1_s plug,
                                  ev_energy_wh = energy_wh plug,
                                  ev_current_a = current_a plug,
                                  ev_voltage_v = voltage_v plug,
                                  ev_power_w = power_w plug,
                                  ev_relay_status = relay_status plug,
                                  ev_fault_code = fault_code plug \<rparr>))))"

text \<open>
  The branch that extends the last interval: the \<^verbatim>\<open>UPDATE\<close>, the log line and the
  \<^verbatim>\<open>return\<close>.
\<close>

definition update_existing :: "env \<Rightarrow> nat \<Rightarrow> string \<Rightarrow> string \<Rightarrow> run \<Rightarrow> run" where
  "update_existing e rowid plug_st device_st r =
     (case db_error e ExecUpdateEnd of
        Some err \<Rightarrow> r\<lparr> raised := Some err \<rparr>
      | None \<Rightarrow>
          r\<lparr> db := apply_write (UpdateEnd rowid (now e)) (db r),
             writes := writes r @ [UpdateEnd rowid (now e)],
             logged := logged r @ [Info_updated_existing plug_st device_st] \<rparr>)"

text \<open>The branch that inserts a new interval, and its log line.\<close>

definition insert_new :: "env \<Rightarrow> string \<Rightarrow> string \<Rightarrow> run \<Rightarrow> run" where
  "insert_new e plug_st device_st r =
     (case db_error e ExecInsertStatus of
        Some err \<Rightarrow> r\<lparr> raised := Some err \<rparr>
      | None \<Rightarrow>
          (let row = \<lparr> start = now e, end_at = now e,
                       plug_state = plug_st, device_state = device_st \<rparr>
           in r\<lparr> db := apply_write (InsertStatus row) (db r),
                 writes := writes r @ [InsertStatus row],
                 logged := logged r @ [Info_logged_new plug_st device_st] \<rparr>))"

text \<open>The body of the \<^verbatim>\<open>with\<close> block of \<^verbatim>\<open>record\<close>.\<close>

definition record_body :: "env \<Rightarrow> TuyaSmartPlug \<Rightarrow> string \<Rightarrow> string \<Rightarrow> store \<Rightarrow> run" where
  "record_body e plug plug_st device_st s =
     (case exec_insert_event e plug plug_st device_st of
        Inl err \<Rightarrow> \<lparr> raised = Some err, db = s, writes = [], logged = [] \<rparr>
      | Inr ev \<Rightarrow>
          (let r = \<lparr> raised = None, db = apply_write (InsertEvent ev) s,
                     writes = [InsertEvent ev], logged = [] \<rparr>
           in case db_error e ExecSelectLast of
                Some err \<Rightarrow> r\<lparr> raised := Some err \<rparr>
              | None \<Rightarrow>
                  (case select_last (db r) of
                     Some (rowid, last_plug_state, last_device_state) \<Rightarrow>
                       if (plug_st, device_st) = (last_plug_state, last_device_state)
                       then update_existing e rowid plug_st device_st r
                       else insert_new e plug_st device_st r
                   | None \<Rightarrow> insert_new e plug_st device_st r)))"

text \<open>
  \<^verbatim>\<open>with sqlite3.connect(DB_PATH) as conn\<close>: the connection commits when the block is left
  normally (also by \<^verbatim>\<open>return\<close>) and rolls back when an exception leaves it. After a commit
  that raises, nothing has been committed.
\<close>

definition with_connection :: "env \<Rightarrow> store \<Rightarrow> (store \<Rightarrow> run) \<Rightarrow> run" where
  "with_connection e s body =
     (case db_error e Connect of
        Some err \<Rightarrow> \<lparr> raised = Some err, db = s, writes = [], logged = [] \<rparr>
      | None \<Rightarrow>
          (let r = body s
           in case raised r of
                Some err \<Rightarrow> r\<lparr> db := s, writes := [] \<rparr>
              | None \<Rightarrow>
                  (case db_error e Commit of
                     Some err \<Rightarrow> r\<lparr> raised := Some err, db := s, writes := [] \<rparr>
                   | None \<Rightarrow> r)))"

text \<open>What the caller of a command sees: the command returns, or an exception reaches it.\<close>

datatype outcome = Returned | Raised py_error

text \<open>
  The result of the command \<^verbatim>\<open>record\<close>: its outcome, the lines it logged, the writes it
  committed, and the database afterwards.
\<close>

record record_result =
  outcome :: outcome
  log_lines :: "log_entry list"
  committed :: "db_write list"
  db_after :: store

text \<open>
  The command \<^verbatim>\<open>record\<close>. \<^verbatim>\<open>ensure_db()\<close> runs before the \<^verbatim>\<open>try\<close>; everything else runs
  under \<^verbatim>\<open>except Exception\<close>, which logs the exception and lets the command return.
\<close>

definition record_cmd :: "env \<Rightarrow> real \<Rightarrow> store \<Rightarrow> record_result" where
  "record_cmd e threshold s =
     (case ensure_db_error e of
        Some err \<Rightarrow> \<lparr> outcome = Raised err, log_lines = [], committed = [], db_after = s \<rparr>
      | None \<Rightarrow>
          (case fetch_plug e of
             Inl err \<Rightarrow>
               \<lparr> outcome = Returned, log_lines = [Error_failed_to_record err],
                 committed = [], db_after = s \<rparr>
           | Inr plug \<Rightarrow>
               (let (plug_st, device_st) = evaluate_plug_state plug threshold;
                    r = with_connection e s (record_body e plug plug_st device_st)
                in \<lparr> outcome = Returned,
                     log_lines =
                       logged r @
                       (case raised r of
                          Some err \<Rightarrow> [Error_failed_to_record err]
                        | None \<Rightarrow> []),
                     committed = writes r,
                     db_after = db r \<rparr>)))"

text \<open>The command run once per sample, as the cron job does, on the database left by the
  run before.\<close>

fun record_all :: "(env \<times> real) list \<Rightarrow> store \<Rightarrow> store" where
  "record_all [] s = s"
| "record_all ((e, threshold) # calls) s = record_all calls (db_after (record_cmd e threshold s))"

section \<open>Vocabulary for the properties of the store\<close>

text \<open>A run of \<^verbatim>\<open>record\<close> succeeded when it returned and logged no error.\<close>

fun is_error :: "log_entry \<Rightarrow> bool" where
  "is_error (Error_failed_to_record err) = True"
| "is_error (Error_failed_to_load err) = True"
| "is_error (Info_updated_existing p d) = False"
| "is_error (Info_logged_new p d) = False"

definition succeeded :: "record_result \<Rightarrow> bool" where
  "succeeded res \<longleftrightarrow> outcome res = Returned \<and> \<not> list_ex is_error (log_lines res)"

text \<open>A write to \<^verbatim>\<open>event_log\<close>, and a write to \<^verbatim>\<open>status_log\<close>.\<close>

fun is_event_insert :: "db_write \<Rightarrow> bool" where
  "is_event_insert (InsertEvent ev) = True"
| "is_event_insert (UpdateEnd rowid t) = False"
| "is_event_insert (InsertStatus row) = False"

fun is_interval_insert :: "db_write \<Rightarrow> bool" where
  "is_interval_insert (InsertStatus row) = True"
| "is_interval_insert (InsertEvent ev) = False"
| "is_interval_insert (UpdateEnd rowid t) = False"

fun is_interval_update :: "db_write \<Rightarrow> bool" where
  "is_interval_update (UpdateEnd rowid t) = True"
| "is_interval_update (InsertEvent ev) = False"
| "is_interval_update (InsertStatus row) = False"

text \<open>
  Merge-or-append as the specification words it: when the most recent interval has the state
  pair of the sample its end becomes the timestamp, otherwise a new interval that starts and
  ends at the timestamp is added.
\<close>

definition merged :: "status_row list \<Rightarrow> instant \<Rightarrow> string \<Rightarrow> string \<Rightarrow> status_row list" where
  "merged rows t plug_st device_st =
     (if rows \<noteq> [] \<and> (plug_state (last rows), device_state (last rows)) = (plug_st, device_st)
      then butlast rows @ [(last rows)\<lparr> end_at := t \<rparr>]
      else rows @ [\<lparr> start = t, end_at = t, plug_state = plug_st, device_state = device_st \<rparr>])"

text \<open>
  The write to \<^verbatim>\<open>status_log\<close> that a run on the database \<open>s\<close> executes for a sample with
  the given state pair.
\<close>

definition interval_write :: "env \<Rightarrow> store \<Rightarrow> string \<Rightarrow> string \<Rightarrow> db_write" where
  "interval_write e s plug_st device_st =
     (if status_log s \<noteq> [] \<and>
         (plug_state (last (status_log s)), device_state (last (status_log s))) =
           (plug_st, device_st)
      then UpdateEnd (length (status_log s)) (now e)
      else InsertStatus \<lparr> start = now e, end_at = now e,
                          plug_state = plug_st, device_state = device_st \<rparr>)"

text \<open>
  The intervals of a table do not overlap and are ordered by their start: no interval ends
  before it starts, every interval ends before each later one starts, and the starts increase.
\<close>

definition well_formed :: "status_row list \<Rightarrow> bool" where
  "well_formed rows \<longleftrightarrow> \<not> list_ex (\<lambda>r. end_at r < start r) rows"

definition non_overlapping :: "status_row list \<Rightarrow> bool" where
  "non_overlapping rows \<longleftrightarrow> sorted_wrt (\<lambda>a b. end_at a < start b) rows"

definition ordered_by_start :: "status_row list \<Rightarrow> bool" where
  "ordered_by_start rows \<longleftrightarrow> sorted_wrt (\<lambda>a b. start a < start b) rows"

text \<open>The state pair of the sample that a run fetches, if it fetches one.\<close>

definition call_pair :: "env \<times> real \<Rightarrow> (string \<times> string) option" where
  "call_pair c =
     (case fetch_plug (fst c) of
        Inl err \<Rightarrow> None
      | Inr plug \<Rightarrow> Some (evaluate_plug_state plug (snd c)))"

text \<open>The number of places in a sequence where an element differs from its predecessor.\<close>

fun transitions :: "'a list \<Rightarrow> nat" where
  "transitions [] = 0"
| "transitions [x] = 0"
| "transitions (x # y # ys) = (if x = y then 0 else 1) + transitions (y # ys)"

text \<open>Every run of a sequence succeeded, each on the database left by the run before.\<close>

fun all_succeeded :: "(env \<times> real) list \<Rightarrow> store \<Rightarrow> bool" where
  "all_succeeded [] s = True"
| "all_succeeded ((e, threshold) # calls) s =
     (succeeded (record_cmd e threshold s) \<and>
      all_succeeded calls (db_after (record_cmd e threshold s)))"

section \<open>Local time and formatting\<close>

















section \<open>Printing the history\<close>










section \<open>Vocabulary for the properties of the report\<close>




section \<open>Example inputs\<close>

text \<open>
  A payload as the cloud sends it, with the switch and the power reading in tenths of a watt;
  a run at a given time in which nothing outside the program fails; and the empty database.
\<close>

definition payload :: "bool \<Rightarrow> int \<Rightarrow> (string \<times> json) list" where
  "payload sw p =
     [(''success'', JBool True),
      (''result'', JList [JDict [(''code'', JStr ''switch_1''), (''value'', JBool sw)],
                          JDict [(''code'', JStr ''cur_power''), (''value'', JInt p)]])]"

definition sampling :: "instant \<Rightarrow> (string \<times> json) list \<Rightarrow> env" where
  "sampling t raw =
     \<lparr> ensure_db_error = None, now = t, getstatus = Inr raw, db_error = (\<lambda>st. None),
       int_of_str = (\<lambda>str. None), local_tz = 7200 \<rparr>"

definition empty_store :: store where
  "empty_store = \<lparr> event_log = [], status_log = [] \<rparr>"


text \<open>A run in which one step of the database library raises.\<close>

definition failing_at :: "db_step \<Rightarrow> instant \<Rightarrow> (string \<times> json) list \<Rightarrow> env" where
  "failing_at step t raw =
     (sampling t raw)\<lparr> db_error := (\<lambda>st. if st = step then Some SqliteError else None) \<rparr>"

text \<open>A run in which the cloud call raises.\<close>

definition fetch_failing :: "instant \<Rightarrow> env" where
  "fetch_failing t = (sampling t [])\<lparr> getstatus := Inl CloudError \<rparr>"

section \<open>Properties of the state classifier\<close>

text \<open>
  Claim C4. For every snapshot and threshold, the plug state is \<^verbatim>\<open>"On"\<close> iff the power field
  is true and \<^verbatim>\<open>"Off"\<close> otherwise; the device state is \<^verbatim>\<open>"On"\<close> iff the power field is true and
  \<open>power_w\<close> is strictly greater than the threshold, and \<^verbatim>\<open>"Off"\<close> otherwise. In particular the
  device is off whenever the power is off, whatever \<open>power_w\<close> is, and it is off when the power
  is on and \<open>power_w\<close> equals the threshold. "The power field is true" is the truth value test
  that the program applies to the field, which for a Boolean field is the Boolean itself.
\<close>

theorem evaluate_plug_state_classifies:
  "(fst (evaluate_plug_state plug threshold) = ''On'' \<longleftrightarrow> truthy (power_on plug)) \<and>
   (fst (evaluate_plug_state plug threshold) = ''Off'' \<longleftrightarrow> \<not> truthy (power_on plug)) \<and>
   (snd (evaluate_plug_state plug threshold) = ''On'' \<longleftrightarrow>
      truthy (power_on plug) \<and> threshold < power_w plug) \<and>
   (snd (evaluate_plug_state plug threshold) = ''Off'' \<longleftrightarrow>
      \<not> (truthy (power_on plug) \<and> threshold < power_w plug)) \<and>
   (power_on plug = JBool b \<longrightarrow>
      (fst (evaluate_plug_state plug threshold) = ''On'' \<longleftrightarrow> b) \<and>
      (snd (evaluate_plug_state plug threshold) = ''On'' \<longleftrightarrow> b \<and> threshold < power_w plug)) \<and>
   (\<not> truthy (power_on plug) \<longrightarrow> snd (evaluate_plug_state plug threshold) = ''Off'') \<and>
   (truthy (power_on plug) \<and> power_w plug = threshold \<longrightarrow>
      snd (evaluate_plug_state plug threshold) = ''Off'')"
  by (simp add: evaluate_plug_state_def)

theorem evaluate_plug_state_classifies_witness:
  "evaluate_plug_state
     \<lparr> power_on = JBool True, countdown_1_s = JInt 0, energy_wh = JInt 0, current_a = 0,
       voltage_v = 230, power_w = 5, fault_code = JInt 0, relay_status = JStr ''unknown'' \<rparr> 5
   = (''On'', ''Off'') \<and>
   evaluate_plug_state
     \<lparr> power_on = JBool False, countdown_1_s = JInt 0, energy_wh = JInt 0, current_a = 0,
       voltage_v = 230, power_w = 150, fault_code = JInt 0, relay_status = JStr ''unknown'' \<rparr> 5
   = (''Off'', ''Off'')"
proof -
  let ?on = "\<lparr> power_on = JBool True, countdown_1_s = JInt 0, energy_wh = JInt 0,
      current_a = 0, voltage_v = 230, power_w = 5, fault_code = JInt 0,
      relay_status = JStr ''unknown'' \<rparr>"
  let ?off = "\<lparr> power_on = JBool False, countdown_1_s = JInt 0, energy_wh = JInt 0,
      current_a = 0, voltage_v = 230, power_w = 150, fault_code = JInt 0,
      relay_status = JStr ''unknown'' \<rparr>"
  have on: "truthy (power_on ?on) \<and> power_w ?on = 5" by simp
  have off: "\<not> truthy (power_on ?off)" by simp
  from evaluate_plug_state_classifies [of ?on 5 True] on
  have "fst (evaluate_plug_state ?on 5) = ''On''"
    and "snd (evaluate_plug_state ?on 5) = ''Off''"
    by simp_all
  moreover from evaluate_plug_state_classifies [of ?off 5 False] off
  have "fst (evaluate_plug_state ?off 5) = ''Off''"
    and "snd (evaluate_plug_state ?off 5) = ''Off''"
    by simp_all
  ultimately show ?thesis
    by (simp add: prod_eq_iff)
qed

text \<open>
  Claim C9. For every snapshot with non-negative \<open>power_w\<close> and every negative threshold, the
  device state equals the plug state.
\<close>

theorem negative_threshold_tracks_plug:
  assumes "0 \<le> power_w plug" and "threshold < 0"
  shows "snd (evaluate_plug_state plug threshold) = fst (evaluate_plug_state plug threshold)"
  using assms by (simp add: evaluate_plug_state_def)

theorem negative_threshold_tracks_plug_witness:
  "snd (evaluate_plug_state
     \<lparr> power_on = JBool True, countdown_1_s = JInt 0, energy_wh = JInt 0, current_a = 0,
       voltage_v = 230, power_w = 0, fault_code = JInt 0, relay_status = JStr ''unknown'' \<rparr> (- 1))
   = ''On''"
proof -
  let ?plug = "\<lparr> power_on = JBool True, countdown_1_s = JInt 0, energy_wh = JInt 0,
      current_a = 0, voltage_v = 230, power_w = 0, fault_code = JInt 0,
      relay_status = JStr ''unknown'' \<rparr>"
  have "(0::real) \<le> power_w ?plug" and "(- 1 :: real) < 0" by simp_all
  from negative_threshold_tracks_plug [OF this]
  show ?thesis by (simp add: evaluate_plug_state_def)
qed

section \<open>Properties of the snapshot construction\<close>

subsection \<open>Rounding to a double\<close>


lemma nearest_double_zero: "nearest_double 0 = 0"
  by (simp add: nearest_double_def)

lemma bit_length_0: "bit_length 0 = 0"
  by (subst bit_length.simps) simp




















lemma floor_log2_zero: "floor_log2 0 = 0"
  by (simp add: floor_log2_def bit_length_0)




subsection \<open>Reading the payload\<close>

















section \<open>Properties of recording a sample\<close>

lemma update_last: "rows \<noteq> [] \<Longrightarrow> rows[length rows - Suc 0 := x] = butlast rows @ [x]"
  by (induction rows rule: rev_induct) simp_all

lemma nth_last: "rows \<noteq> [] \<Longrightarrow> rows ! (length rows - Suc 0) = last rows"
  by (simp add: last_conv_nth)

lemma apply_update_last:
  "status_log s \<noteq> [] \<Longrightarrow>
   apply_write (UpdateEnd (length (status_log s)) t) s =
     s\<lparr> status_log := butlast (status_log s) @ [(last (status_log s))\<lparr> end_at := t \<rparr>] \<rparr>"
  by (simp add: update_last nth_last)

lemma with_connection_ok:
  assumes "raised (with_connection e s body) = None"
  shows "db_error e Connect = None" and "db_error e Commit = None"
    and "with_connection e s body = body s"
  using assms by (auto simp: with_connection_def Let_def split: option.splits)

lemma with_connection_raised:
  assumes "raised (with_connection e s body) = Some err"
  shows "db (with_connection e s body) = s" and "writes (with_connection e s body) = []"
  using assms by (auto simp: with_connection_def Let_def split: option.splits)

lemma record_body_ok:
  assumes "raised (record_body e plug ps ds s) = None"
  shows "\<exists>ev. exec_insert_event e plug ps ds = Inr ev \<and>
           writes (record_body e plug ps ds s) = [InsertEvent ev, interval_write e s ps ds] \<and>
           db (record_body e plug ps ds s) =
             \<lparr> event_log = event_log s @ [ev],
               status_log = merged (status_log s) (now e) ps ds \<rparr> \<and>
           logged (record_body e plug ps ds s) =
             [if is_interval_update (interval_write e s ps ds)
              then Info_updated_existing ps ds else Info_logged_new ps ds]"
proof -
  from assms obtain ev where ev: "exec_insert_event e plug ps ds = Inr ev"
    by (auto simp: record_body_def split: sum.splits)
  from assms ev have sel: "db_error e ExecSelectLast = None"
    by (auto simp: record_body_def Let_def split: option.splits)
  show ?thesis
  proof (cases "status_log s \<noteq> [] \<and>
      (plug_state (last (status_log s)), device_state (last (status_log s))) = (ps, ds)")
    case True
    with assms ev sel have "db_error e ExecUpdateEnd = None"
      by (auto simp: record_body_def Let_def select_last_def update_existing_def
          split: option.splits)
    with True ev sel show ?thesis
      by (simp add: record_body_def Let_def select_last_def update_existing_def
          interval_write_def merged_def update_last nth_last)
  next
    case False
    with assms ev sel have "db_error e ExecInsertStatus = None"
      by (auto simp: record_body_def Let_def select_last_def insert_new_def
          split: option.splits if_splits)
    with False ev sel show ?thesis
      by (auto simp: record_body_def Let_def select_last_def insert_new_def
          interval_write_def merged_def)
  qed
qed

lemma record_cmd_succeeded:
  assumes "succeeded (record_cmd e threshold s)"
  shows "\<exists>plug ev. ensure_db_error e = None \<and> fetch_plug e = Inr plug \<and>
           exec_insert_event e plug (fst (evaluate_plug_state plug threshold))
             (snd (evaluate_plug_state plug threshold)) = Inr ev \<and>
           committed (record_cmd e threshold s) =
             [InsertEvent ev,
              interval_write e s (fst (evaluate_plug_state plug threshold))
                (snd (evaluate_plug_state plug threshold))] \<and>
           db_after (record_cmd e threshold s) =
             \<lparr> event_log = event_log s @ [ev],
               status_log = merged (status_log s) (now e)
                 (fst (evaluate_plug_state plug threshold))
                 (snd (evaluate_plug_state plug threshold)) \<rparr>"
proof -
  from assms have en: "ensure_db_error e = None"
    by (auto simp: succeeded_def record_cmd_def split: option.splits)
  from assms en obtain plug where plug: "fetch_plug e = Inr plug"
    by (auto simp: succeeded_def record_cmd_def split: sum.splits)
  obtain ps ds where pair: "evaluate_plug_state plug threshold = (ps, ds)"
    by (cases "evaluate_plug_state plug threshold")
  let ?r = "with_connection e s (record_body e plug ps ds)"
  from en plug pair have res: "record_cmd e threshold s =
      \<lparr> outcome = Returned,
        log_lines = logged ?r @
          (case raised ?r of Some err \<Rightarrow> [Error_failed_to_record err] | None \<Rightarrow> []),
        committed = writes ?r, db_after = db ?r \<rparr>"
    by (simp add: record_cmd_def Let_def)
  from assms res have "raised ?r = None"
    by (auto simp: succeeded_def split: option.splits)
  from with_connection_ok(3) [OF this] this
  have eq: "?r = record_body e plug ps ds s" and ok: "raised (record_body e plug ps ds s) = None"
    by simp_all
  from record_body_ok [OF ok] eq res en plug pair show ?thesis
    by auto
qed

lemma record_cmd_unfold:
  assumes "ensure_db_error e = None" and "fetch_plug e = Inr plug"
    and "evaluate_plug_state plug threshold = (ps, ds)"
  shows "record_cmd e threshold s =
      \<lparr> outcome = Returned,
        log_lines = logged (with_connection e s (record_body e plug ps ds)) @
          (case raised (with_connection e s (record_body e plug ps ds)) of
             Some err \<Rightarrow> [Error_failed_to_record err] | None \<Rightarrow> []),
        committed = writes (with_connection e s (record_body e plug ps ds)),
        db_after = db (with_connection e s (record_body e plug ps ds)) \<rparr>"
  using assms by (simp add: record_cmd_def Let_def)

lemma record_cmd_no_raise_succeeded:
  assumes "ensure_db_error e = None" and "fetch_plug e = Inr plug"
    and "evaluate_plug_state plug threshold = (ps, ds)"
    and "raised (with_connection e s (record_body e plug ps ds)) = None"
  shows "succeeded (record_cmd e threshold s)"
proof -
  from with_connection_ok(3) [OF assms(4)] assms(4)
  have eq: "with_connection e s (record_body e plug ps ds) = record_body e plug ps ds s"
    and ok: "raised (record_body e plug ps ds s) = None"
    by simp_all
  from record_body_ok [OF ok]
  have "\<not> list_ex is_error (logged (record_body e plug ps ds s))"
    by (auto split: if_splits)
  with record_cmd_unfold [OF assms(1-3), of s] eq ok show ?thesis
    by (simp add: succeeded_def)
qed

lemma record_cmd_failed:
  assumes "\<not> succeeded (record_cmd e threshold s)"
  shows "committed (record_cmd e threshold s) = [] \<and>
         db_after (record_cmd e threshold s) = s \<and>
         (ensure_db_error e = None \<longrightarrow>
            outcome (record_cmd e threshold s) = Returned \<and>
            (\<exists>err. log_lines (record_cmd e threshold s) \<noteq> [] \<and>
                   last (log_lines (record_cmd e threshold s)) = Error_failed_to_record err))"
proof (cases "ensure_db_error e")
  case (Some err)
  then show ?thesis by (simp add: record_cmd_def)
next
  case None
  show ?thesis
  proof (cases "fetch_plug e")
    case (Inl err)
    with None show ?thesis by (simp add: record_cmd_def)
  next
    case (Inr plug)
    obtain ps ds where pair: "evaluate_plug_state plug threshold = (ps, ds)"
      by (cases "evaluate_plug_state plug threshold")
    from assms record_cmd_no_raise_succeeded [OF None Inr pair, of s]
    obtain err where err: "raised (with_connection e s (record_body e plug ps ds)) = Some err"
      by (cases "raised (with_connection e s (record_body e plug ps ds))") auto
    from with_connection_raised [OF err] err record_cmd_unfold [OF None Inr pair, of s] None
    show ?thesis by simp
  qed
qed

lemma sampling_fields:
  "ensure_db_error (sampling t raw) = None"
  "now (sampling t raw) = t"
  "getstatus (sampling t raw) = Inr raw"
  "db_error (sampling t raw) st = None"
  "local_tz (sampling t raw) = 7200"
  by (simp_all add: sampling_def)

lemma int_truediv_zero: "int_truediv 0 d = Inr 0"
  by (simp add: int_truediv_def nearest_double_zero floor_log2_zero)

lemma reading_1500: "truediv (JInt 1500) 10 = Inr 150"
  by code_simp

lemma reading_0: "truediv (JInt 0) 10 = Inr 0"
  by (simp add: int_truediv_zero)

lemma fetch_payload:
  assumes "truediv (JInt p) 10 = Inr w"
  shows "fetch_plug (sampling t (payload sw p)) =
     Inr \<lparr> power_on = JBool sw, countdown_1_s = JInt 0, energy_wh = JInt 0, current_a = 0,
           voltage_v = 0, power_w = w, fault_code = JInt 0,
           relay_status = JStr ''unknown'' \<rparr>"
  using assms
  by (simp add: fetch_plug_def sampling_def payload_def from_raw_def read_dps_def raw_get_def
      dps_get_def int_truediv_zero)

lemma call_pair_payload:
  assumes "truediv (JInt p) 10 = Inr w"
  shows "call_pair (sampling t (payload sw p), threshold) =
     Some (if sw then ''On'' else ''Off'',
           if sw \<and> threshold < w then ''On'' else ''Off'')"
  by (simp add: call_pair_def fetch_payload [OF assms] evaluate_plug_state_def)

lemma record_body_clean:
  assumes ev: "exec_insert_event e plug ps ds = Inr ev"
    and quiet: "\<And>st. db_error e st = None"
  shows "record_body e plug ps ds s =
      \<lparr> raised = None,
        db = \<lparr> event_log = event_log s @ [ev],
               status_log = merged (status_log s) (now e) ps ds \<rparr>,
        writes = [InsertEvent ev, interval_write e s ps ds],
        logged = [if is_interval_update (interval_write e s ps ds)
                  then Info_updated_existing ps ds else Info_logged_new ps ds] \<rparr>"
proof (cases "status_log s \<noteq> [] \<and>
    (plug_state (last (status_log s)), device_state (last (status_log s))) = (ps, ds)")
  case True
  then show ?thesis
    by (simp add: record_body_def ev quiet Let_def select_last_def update_existing_def
        interval_write_def merged_def update_last nth_last)
next
  case False
  then show ?thesis
    by (auto simp: record_body_def ev quiet Let_def select_last_def insert_new_def
        interval_write_def merged_def)
qed

lemma record_cmd_clean:
  assumes "ensure_db_error e = None" and "fetch_plug e = Inr plug"
    and "evaluate_plug_state plug threshold = (ps, ds)"
    and ev: "exec_insert_event e plug ps ds = Inr ev"
    and quiet: "\<And>st. db_error e st = None"
  shows "record_cmd e threshold s =
      \<lparr> outcome = Returned,
        log_lines = [if is_interval_update (interval_write e s ps ds)
                     then Info_updated_existing ps ds else Info_logged_new ps ds],
        committed = [InsertEvent ev, interval_write e s ps ds],
        db_after = \<lparr> event_log = event_log s @ [ev],
                     status_log = merged (status_log s) (now e) ps ds \<rparr> \<rparr>"
proof -
  have "with_connection e s (record_body e plug ps ds) = record_body e plug ps ds s"
    by (simp add: with_connection_def quiet Let_def record_body_clean [OF ev quiet])
  with record_cmd_unfold [OF assms(1-3), of s] show ?thesis
    by (simp add: record_body_clean [OF ev quiet])
qed

lemma insert_payload:
  "exec_insert_event (sampling t (payload sw p))
      \<lparr> power_on = JBool sw, countdown_1_s = JInt 0, energy_wh = JInt 0, current_a = 0,
        voltage_v = 0, power_w = w, fault_code = JInt 0,
        relay_status = JStr ''unknown'' \<rparr> ps ds =
      Inr \<lparr> recorded_at = t, ev_plug_state = ps, ev_device_state = ds,
            plug_power = (if sw then 1 else 0), countdown_s = JInt 0,
            ev_energy_wh = JInt 0, ev_current_a = 0, ev_voltage_v = 0,
            ev_power_w = w, ev_relay_status = JStr ''unknown'',
            ev_fault_code = JInt 0 \<rparr>"
  by (simp add: exec_insert_event_def sampling_fields not_null_error_def)

lemma pair_payload:
  "evaluate_plug_state
      \<lparr> power_on = JBool sw, countdown_1_s = JInt 0, energy_wh = JInt 0, current_a = 0,
        voltage_v = 0, power_w = w, fault_code = JInt 0,
        relay_status = JStr ''unknown'' \<rparr> threshold =
   (if sw then ''On'' else ''Off'',
    if sw \<and> threshold < w then ''On'' else ''Off'')"
  by (simp add: evaluate_plug_state_def)

lemmas record_payload =
  record_cmd_clean [OF sampling_fields(1) fetch_payload pair_payload insert_payload
    sampling_fields(4), unfolded sampling_fields(2)]

lemma succeeded_payload:
  assumes "truediv (JInt p) 10 = Inr w"
  shows "succeeded (record_cmd (sampling t (payload sw p)) threshold s)"
  by (simp add: record_payload [OF assms] succeeded_def)

lemma call_pair_fetch:
  "call_pair (e, threshold) = Some P \<longleftrightarrow>
     (\<exists>plug. fetch_plug e = Inr plug \<and> evaluate_plug_state plug threshold = P)"
  by (auto simp: call_pair_def split: sum.splits)

lemma succeeded_status_log:
  assumes "succeeded (record_cmd e threshold s)" and "call_pair (e, threshold) = Some P"
  shows "status_log (db_after (record_cmd e threshold s)) =
           merged (status_log s) (now e) (fst P) (snd P)"
    and "\<exists>ev. committed (record_cmd e threshold s) =
           [InsertEvent ev, interval_write e s (fst P) (snd P)] \<and>
           event_log (db_after (record_cmd e threshold s)) = event_log s @ [ev]"
  using record_cmd_succeeded [OF assms(1)] assms(2)
  by (auto simp: call_pair_fetch)

text \<open>
  Claim C2. For every database whose most recently created interval is
  \<open>(start = T0, end = T1, pair = P)\<close>, a run that records a sample at a time \<open>T2 > T1\<close> whose
  state pair is \<open>P\<close> updates that row to \<open>(start = T0, end = T2, pair = P)\<close> in place and
  inserts no row into \<^verbatim>\<open>status_log\<close>.
\<close>

theorem merge_extends_last_interval:
  assumes "status_log s \<noteq> []"
    and "last (status_log s) =
           \<lparr> start = T0, end_at = T1, plug_state = fst P, device_state = snd P \<rparr>"
    and "T1 < now e"
    and "call_pair (e, threshold) = Some P"
    and "succeeded (record_cmd e threshold s)"
  shows "status_log (db_after (record_cmd e threshold s)) =
           butlast (status_log s) @
           [\<lparr> start = T0, end_at = now e, plug_state = fst P, device_state = snd P \<rparr>] \<and>
         length (status_log (db_after (record_cmd e threshold s))) = length (status_log s) \<and>
         \<not> list_ex is_interval_insert (committed (record_cmd e threshold s))"
proof -
  from assms(1,2) have m: "merged (status_log s) (now e) (fst P) (snd P) =
      butlast (status_log s) @
      [\<lparr> start = T0, end_at = now e, plug_state = fst P, device_state = snd P \<rparr>]"
    by (simp add: merged_def)
  from assms(1,2) have w: "interval_write e s (fst P) (snd P) =
      UpdateEnd (length (status_log s)) (now e)"
    by (simp add: interval_write_def)
  from succeeded_status_log [OF assms(5,4)] m w assms(1) show ?thesis
    by auto
qed

theorem merge_extends_last_interval_witness:
  "status_log (db_after (record_cmd (sampling 660 (payload True 1500)) 5
      \<lparr> event_log = [],
        status_log = [\<lparr> start = 600, end_at = 600, plug_state = ''On'',
                        device_state = ''On'' \<rparr>] \<rparr>))
   = [\<lparr> start = 600, end_at = 660, plug_state = ''On'', device_state = ''On'' \<rparr>]"
proof -
  let ?s = "\<lparr> event_log = [],
      status_log = [\<lparr> start = 600, end_at = 600, plug_state = ''On'',
                      device_state = ''On'' \<rparr>] \<rparr>"
  let ?e = "sampling 660 (payload True 1500)"
  have 1: "status_log ?s \<noteq> []" by simp
  have 2: "last (status_log ?s) =
      \<lparr> start = 600, end_at = 600, plug_state = fst (''On'', ''On''),
        device_state = snd (''On'', ''On'') \<rparr>" by simp
  have 3: "600 < now ?e" by (simp add: sampling_fields)
  have 4: "call_pair (?e, 5) = Some (''On'', ''On'')"
    by (simp add: call_pair_payload [OF reading_1500])
  have 5: "succeeded (record_cmd ?e 5 ?s)" by (rule succeeded_payload [OF reading_1500])
  from merge_extends_last_interval [OF 1 2 3 4 5] show ?thesis
    by (simp add: sampling_fields)
qed

text \<open>
  Claim C7. For every database whose most recently created interval is
  \<open>(start = T0, end = T1, pair = P)\<close>, a run that records a sample at a time \<open>T2\<close> whose state
  pair \<open>Q\<close> differs from \<open>P\<close> leaves \<open>(T0, T1, P)\<close> as it is and creates exactly one new
  interval \<open>(start = T2, end = T2, pair = Q)\<close>.
\<close>

theorem transition_appends_interval:
  assumes "status_log s \<noteq> []"
    and "last (status_log s) =
           \<lparr> start = T0, end_at = T1, plug_state = fst P, device_state = snd P \<rparr>"
    and "call_pair (e, threshold) = Some Q"
    and "Q \<noteq> P"
    and "succeeded (record_cmd e threshold s)"
  shows "status_log (db_after (record_cmd e threshold s)) =
           status_log s @
           [\<lparr> start = now e, end_at = now e, plug_state = fst Q, device_state = snd Q \<rparr>] \<and>
         last (butlast (status_log (db_after (record_cmd e threshold s)))) =
           \<lparr> start = T0, end_at = T1, plug_state = fst P, device_state = snd P \<rparr> \<and>
         length (status_log (db_after (record_cmd e threshold s))) =
           length (status_log s) + 1 \<and>
         \<not> list_ex is_interval_update (committed (record_cmd e threshold s))"
proof -
  from assms(2,4) have ne: "(plug_state (last (status_log s)), device_state (last (status_log s)))
      \<noteq> (fst Q, snd Q)"
    by (auto simp: prod_eq_iff)
  then have m: "merged (status_log s) (now e) (fst Q) (snd Q) =
      status_log s @
      [\<lparr> start = now e, end_at = now e, plug_state = fst Q, device_state = snd Q \<rparr>]"
    by (simp add: merged_def)
  from ne have w: "interval_write e s (fst Q) (snd Q) =
      InsertStatus \<lparr> start = now e, end_at = now e, plug_state = fst Q,
                     device_state = snd Q \<rparr>"
    by (simp add: interval_write_def)
  from succeeded_status_log [OF assms(5,3)] m w assms(2) show ?thesis
    by auto
qed

theorem transition_appends_interval_witness:
  "status_log (db_after (record_cmd (sampling 720 (payload False 0)) 5
      \<lparr> event_log = [],
        status_log = [\<lparr> start = 600, end_at = 660, plug_state = ''On'',
                        device_state = ''On'' \<rparr>] \<rparr>))
   = [\<lparr> start = 600, end_at = 660, plug_state = ''On'', device_state = ''On'' \<rparr>,
      \<lparr> start = 720, end_at = 720, plug_state = ''Off'', device_state = ''Off'' \<rparr>]"
proof -
  let ?s = "\<lparr> event_log = [],
      status_log = [\<lparr> start = 600, end_at = 660, plug_state = ''On'',
                      device_state = ''On'' \<rparr>] \<rparr>"
  let ?e = "sampling 720 (payload False 0)"
  have 1: "status_log ?s \<noteq> []" by simp
  have 2: "last (status_log ?s) =
      \<lparr> start = 600, end_at = 660, plug_state = fst (''On'', ''On''),
        device_state = snd (''On'', ''On'') \<rparr>" by simp
  have 3: "call_pair (?e, 5) = Some (''Off'', ''Off'')"
    by (simp add: call_pair_payload [OF reading_0])
  have 4: "(''Off'', ''Off'') \<noteq> (''On'', ''On'')" by simp
  have 5: "succeeded (record_cmd ?e 5 ?s)" by (rule succeeded_payload [OF reading_0])
  from transition_appends_interval [OF 1 2 3 4 5] show ?thesis
    by (simp add: sampling_fields)
qed

lemma apply_interval_write:
  "apply_write (interval_write e s ps ds) (apply_write (InsertEvent ev) s) =
     \<lparr> event_log = event_log s @ [ev], status_log = merged (status_log s) (now e) ps ds \<rparr>"
  by (simp add: interval_write_def merged_def update_last nth_last)

lemma interval_write_kind:
  "is_interval_insert (interval_write e s ps ds) \<longleftrightarrow> \<not> is_interval_update (interval_write e s ps ds)"
  "is_interval_update (interval_write e s ps ds) \<Longrightarrow>
     status_log s \<noteq> [] \<and> interval_write e s ps ds = UpdateEnd (length (status_log s)) (now e)"
  "\<not> is_event_insert (interval_write e s ps ds)"
  by (simp_all add: interval_write_def split: if_splits)

text \<open>
  Claim C6. Every successful run of \<^verbatim>\<open>record\<close> commits exactly one insert into
  \<^verbatim>\<open>event_log\<close> and exactly one write to \<^verbatim>\<open>status_log\<close>; that write is either the insert of a
  new interval or the update of the end of the latest interval, never both.
\<close>

theorem record_writes_once:
  assumes "succeeded (record_cmd e threshold s)"
  shows "\<exists>ev w. committed (record_cmd e threshold s) = [InsertEvent ev, w] \<and>
           (is_interval_insert w \<longleftrightarrow> \<not> is_interval_update w) \<and>
           (is_interval_update w \<longrightarrow>
              status_log s \<noteq> [] \<and> w = UpdateEnd (length (status_log s)) (now e)) \<and>
           db_after (record_cmd e threshold s) = apply_write w (apply_write (InsertEvent ev) s) \<and>
           length (filter is_event_insert (committed (record_cmd e threshold s))) = 1 \<and>
           length (filter is_interval_insert (committed (record_cmd e threshold s))) +
           length (filter is_interval_update (committed (record_cmd e threshold s))) = 1"
proof -
  from record_cmd_succeeded [OF assms] obtain plug ev where
    c: "committed (record_cmd e threshold s) =
          [InsertEvent ev,
           interval_write e s (fst (evaluate_plug_state plug threshold))
             (snd (evaluate_plug_state plug threshold))]"
    and d: "db_after (record_cmd e threshold s) =
          \<lparr> event_log = event_log s @ [ev],
            status_log = merged (status_log s) (now e)
              (fst (evaluate_plug_state plug threshold))
              (snd (evaluate_plug_state plug threshold)) \<rparr>"
    by blast
  let ?w = "interval_write e s (fst (evaluate_plug_state plug threshold))
             (snd (evaluate_plug_state plug threshold))"
  have "committed (record_cmd e threshold s) = [InsertEvent ev, ?w]" by (rule c)
  moreover have "is_interval_insert ?w \<longleftrightarrow> \<not> is_interval_update ?w"
    by (rule interval_write_kind(1))
  moreover have "is_interval_update ?w \<longrightarrow>
      status_log s \<noteq> [] \<and> ?w = UpdateEnd (length (status_log s)) (now e)"
    using interval_write_kind(2) by blast
  moreover have "db_after (record_cmd e threshold s) =
      apply_write ?w (apply_write (InsertEvent ev) s)"
    by (simp only: d apply_interval_write)
  moreover have "length (filter is_event_insert (committed (record_cmd e threshold s))) = 1"
    by (simp add: c interval_write_kind(3))
  moreover have "length (filter is_interval_insert (committed (record_cmd e threshold s))) +
      length (filter is_interval_update (committed (record_cmd e threshold s))) = 1"
    by (simp add: c interval_write_kind(1))
  ultimately show ?thesis by blast
qed

theorem record_writes_once_witness:
  "\<exists>ev w. committed (record_cmd (sampling 600 (payload True 1500)) 5 empty_store)
            = [InsertEvent ev, w] \<and>
          is_interval_insert w \<and>
          db_after (record_cmd (sampling 600 (payload True 1500)) 5 empty_store)
            = apply_write w (apply_write (InsertEvent ev) empty_store)"
proof -
  have "succeeded (record_cmd (sampling 600 (payload True 1500)) 5 empty_store)"
    by (rule succeeded_payload [OF reading_1500])
  from record_writes_once [OF this] obtain ev w where
    c: "committed (record_cmd (sampling 600 (payload True 1500)) 5 empty_store)
          = [InsertEvent ev, w]"
    and k: "is_interval_insert w \<longleftrightarrow> \<not> is_interval_update w"
    and u: "is_interval_update w \<longrightarrow> status_log empty_store \<noteq> [] \<and>
          w = UpdateEnd (length (status_log empty_store)) (now (sampling 600 (payload True 1500)))"
    and d: "db_after (record_cmd (sampling 600 (payload True 1500)) 5 empty_store)
          = apply_write w (apply_write (InsertEvent ev) empty_store)"
    by blast
  from u have "\<not> is_interval_update w" by (auto simp: empty_store_def)
  with k have "is_interval_insert w" by simp
  with c d show ?thesis by blast
qed

lemma exec_insert_event_quiet:
  "exec_insert_event e plug ps ds = Inr ev \<Longrightarrow> db_error e ExecInsertEvent = None"
  by (auto simp: exec_insert_event_def Let_def split: sum.splits option.splits)

lemma record_body_quiet:
  assumes "raised (record_body e plug ps ds s) = None"
  shows "db_error e ExecInsertEvent = None \<and> db_error e ExecSelectLast = None \<and>
         (db_error e ExecUpdateEnd = None \<or> db_error e ExecInsertStatus = None)"
proof -
  from record_body_ok [OF assms] obtain ev where ev: "exec_insert_event e plug ps ds = Inr ev"
    by blast
  from assms ev have sel: "db_error e ExecSelectLast = None"
    by (auto simp: record_body_def Let_def split: option.splits)
  from assms ev sel have "db_error e ExecUpdateEnd = None \<or> db_error e ExecInsertStatus = None"
    by (auto simp: record_body_def Let_def update_existing_def insert_new_def
        split: option.splits if_splits)
  with exec_insert_event_quiet [OF ev] sel show ?thesis by simp
qed

lemma succeeded_quiet:
  assumes "succeeded (record_cmd e threshold s)"
  shows "ensure_db_error e = None \<and> db_error e Connect = None \<and>
         db_error e ExecInsertEvent = None \<and> db_error e ExecSelectLast = None \<and>
         db_error e Commit = None \<and>
         (db_error e ExecUpdateEnd = None \<or> db_error e ExecInsertStatus = None)"
proof -
  from record_cmd_succeeded [OF assms] obtain plug where
    en: "ensure_db_error e = None" and plug: "fetch_plug e = Inr plug"
    by blast
  obtain ps ds where pair: "evaluate_plug_state plug threshold = (ps, ds)"
    by (cases "evaluate_plug_state plug threshold")
  from assms record_cmd_unfold [OF en plug pair, of s]
  have r: "raised (with_connection e s (record_body e plug ps ds)) = None"
    by (auto simp: succeeded_def split: option.splits)
  from with_connection_ok [OF r] r
  have "db_error e Connect = None" and "db_error e Commit = None"
    and "raised (record_body e plug ps ds s) = None"
    by simp_all
  with record_body_quiet [of e plug ps ds s] en show ?thesis by simp
qed

text \<open>
  Claim C5, as amended. A run of \<^verbatim>\<open>record\<close> performs no partial write: either the insert
  into \<^verbatim>\<open>event_log\<close> and the insert or update of \<^verbatim>\<open>status_log\<close> both take effect, or the
  database is left as it was. A run in which the connection, a statement or the commit fails
  is of the second kind. Such a run does not fail: the exception is logged as an error and
  the command returns normally. Only an exception of \<^verbatim>\<open>ensure_db()\<close>, which runs before the
  \<^verbatim>\<open>try\<close>, reaches the caller.
\<close>

theorem record_no_partial_write:
  "(succeeded (record_cmd e threshold s) \<longrightarrow>
      (\<exists>ev w. committed (record_cmd e threshold s) = [InsertEvent ev, w] \<and>
              (is_interval_insert w \<or> is_interval_update w) \<and>
              db_after (record_cmd e threshold s) =
                apply_write w (apply_write (InsertEvent ev) s))) \<and>
   (\<not> succeeded (record_cmd e threshold s) \<longrightarrow>
      committed (record_cmd e threshold s) = [] \<and>
      db_after (record_cmd e threshold s) = s \<and>
      (case ensure_db_error e of
         Some err \<Rightarrow> outcome (record_cmd e threshold s) = Raised err
       | None \<Rightarrow>
           outcome (record_cmd e threshold s) = Returned \<and>
           (\<exists>err. log_lines (record_cmd e threshold s) \<noteq> [] \<and>
                  last (log_lines (record_cmd e threshold s)) = Error_failed_to_record err))) \<and>
   (ensure_db_error e \<noteq> None \<or> db_error e Connect \<noteq> None \<or>
    db_error e ExecInsertEvent \<noteq> None \<or> db_error e ExecSelectLast \<noteq> None \<or>
    db_error e Commit \<noteq> None \<or>
    (db_error e ExecUpdateEnd \<noteq> None \<and> db_error e ExecInsertStatus \<noteq> None) \<longrightarrow>
      \<not> succeeded (record_cmd e threshold s))"
proof (intro conjI impI)
  assume ok: "succeeded (record_cmd e threshold s)"
  from record_cmd_succeeded [OF ok] obtain plug ev where
    c: "committed (record_cmd e threshold s) =
          [InsertEvent ev,
           interval_write e s (fst (evaluate_plug_state plug threshold))
             (snd (evaluate_plug_state plug threshold))]"
    and d: "db_after (record_cmd e threshold s) =
          \<lparr> event_log = event_log s @ [ev],
            status_log = merged (status_log s) (now e)
              (fst (evaluate_plug_state plug threshold))
              (snd (evaluate_plug_state plug threshold)) \<rparr>"
    by blast
  let ?w = "interval_write e s (fst (evaluate_plug_state plug threshold))
             (snd (evaluate_plug_state plug threshold))"
  have "is_interval_insert ?w \<or> is_interval_update ?w"
    using interval_write_kind(1) by blast
  moreover have "db_after (record_cmd e threshold s) =
      apply_write ?w (apply_write (InsertEvent ev) s)"
    by (simp only: d apply_interval_write)
  ultimately show "\<exists>ev w. committed (record_cmd e threshold s) = [InsertEvent ev, w] \<and>
      (is_interval_insert w \<or> is_interval_update w) \<and>
      db_after (record_cmd e threshold s) = apply_write w (apply_write (InsertEvent ev) s)"
    using c by blast
next
  assume bad: "\<not> succeeded (record_cmd e threshold s)"
  from record_cmd_failed [OF bad]
  show "committed (record_cmd e threshold s) = []" by simp
  from record_cmd_failed [OF bad]
  show "db_after (record_cmd e threshold s) = s" by simp
  show "case ensure_db_error e of
      Some err \<Rightarrow> outcome (record_cmd e threshold s) = Raised err
    | None \<Rightarrow>
        outcome (record_cmd e threshold s) = Returned \<and>
        (\<exists>err. log_lines (record_cmd e threshold s) \<noteq> [] \<and>
               last (log_lines (record_cmd e threshold s)) = Error_failed_to_record err)"
  proof (cases "ensure_db_error e")
    case None
    with record_cmd_failed [OF bad] show ?thesis by simp
  next
    case (Some err)
    then show ?thesis by (simp add: record_cmd_def)
  qed
next
  assume f: "ensure_db_error e \<noteq> None \<or> db_error e Connect \<noteq> None \<or>
    db_error e ExecInsertEvent \<noteq> None \<or> db_error e ExecSelectLast \<noteq> None \<or>
    db_error e Commit \<noteq> None \<or>
    (db_error e ExecUpdateEnd \<noteq> None \<and> db_error e ExecInsertStatus \<noteq> None)"
  show "\<not> succeeded (record_cmd e threshold s)"
  proof
    assume "succeeded (record_cmd e threshold s)"
    from succeeded_quiet [OF this] f show False by blast
  qed
qed

lemma failing_fields:
  "ensure_db_error (failing_at step t raw) = None"
  "now (failing_at step t raw) = t"
  "getstatus (failing_at step t raw) = Inr raw"
  "db_error (failing_at step t raw) st = (if st = step then Some SqliteError else None)"
  by (simp_all add: failing_at_def sampling_def)

theorem record_no_partial_write_witness:
  "\<not> succeeded (record_cmd (failing_at Commit 600 (payload True 1500)) 5 empty_store) \<and>
   committed (record_cmd (failing_at Commit 600 (payload True 1500)) 5 empty_store) = [] \<and>
   db_after (record_cmd (failing_at Commit 600 (payload True 1500)) 5 empty_store)
     = empty_store \<and>
   outcome (record_cmd (failing_at Commit 600 (payload True 1500)) 5 empty_store)
     = Returned \<and>
   (\<exists>ev w. committed (record_cmd (sampling 600 (payload True 1500)) 5 empty_store)
             = [InsertEvent ev, w])"
proof -
  let ?g = "failing_at Commit 600 (payload True 1500)"
  have a: "db_error ?g Commit \<noteq> None" and b: "ensure_db_error ?g = None"
    by (simp_all add: failing_fields)
  have ok: "succeeded (record_cmd (sampling 600 (payload True 1500)) 5 empty_store)"
    by (rule succeeded_payload [OF reading_1500])
  from record_no_partial_write [of ?g 5 empty_store] a b
  have "\<not> succeeded (record_cmd ?g 5 empty_store) \<and>
    committed (record_cmd ?g 5 empty_store) = [] \<and>
    db_after (record_cmd ?g 5 empty_store) = empty_store \<and>
    outcome (record_cmd ?g 5 empty_store) = Returned"
    by simp
  moreover from record_no_partial_write [of "sampling 600 (payload True 1500)" 5 empty_store] ok
  have "\<exists>ev w. committed (record_cmd (sampling 600 (payload True 1500)) 5 empty_store)
      = [InsertEvent ev, w]"
    by blast
  ultimately show ?thesis by simp
qed

lemma fetch_failing: "fetch_plug (failing_at step t (payload sw p)) = fetch_plug (sampling t (payload sw p))"
  by (simp add: fetch_plug_def failing_fields sampling_fields)

text \<open>
  Claim C5 as it is stated fails: when the \<^verbatim>\<open>INSERT INTO status_log\<close> raises, the run
  rolls back and leaves the database as it was, but it does not fail with an error; it logs
  the error and returns.
\<close>

theorem write_failure_returns_counterexample:
  "record_cmd (failing_at ExecInsertStatus 600 (payload True 1500)) 5 empty_store =
     \<lparr> outcome = Returned, log_lines = [Error_failed_to_record SqliteError],
       committed = [], db_after = empty_store \<rparr>"
  by (simp add: record_cmd_def failing_fields fetch_failing fetch_payload [OF reading_1500]
      evaluate_plug_state_def with_connection_def record_body_def exec_insert_event_def
      not_null_error_def select_last_def insert_new_def empty_store_def Let_def)

section \<open>Properties of the error handling\<close>










section \<open>Properties of a sequence of samples\<close>

lemma merged_Nil:
  "merged [] t ps ds = [\<lparr> start = t, end_at = t, plug_state = ps, device_state = ds \<rparr>]"
  by (simp add: merged_def)

lemma merged_snoc:
  "merged (xs @ [x]) t ps ds =
     (if (plug_state x, device_state x) = (ps, ds)
      then xs @ [x\<lparr> end_at := t \<rparr>]
      else xs @ [x, \<lparr> start = t, end_at = t, plug_state = ps, device_state = ds \<rparr>])"
  by (simp add: merged_def)

lemma ordered_from_non_overlapping:
  assumes "well_formed rows" and "non_overlapping rows"
  shows "ordered_by_start rows"
proof -
  have "sorted_wrt (\<lambda>a b. start a < start b) rows"
  proof (rule sorted_wrt_mono_rel [of rows "\<lambda>a b. end_at a < start b"])
    fix a b
    assume "a \<in> set rows" and "b \<in> set rows" and "end_at a < start b"
    with assms(1) show "start a < start b"
      by (fastforce simp: well_formed_def list_ex_iff)
  next
    from assms(2) show "sorted_wrt (\<lambda>a b. end_at a < start b) rows"
      by (simp add: non_overlapping_def)
  qed
  then show ?thesis by (simp add: ordered_by_start_def)
qed

lemma merged_invariant:
  assumes ne: "rows \<noteq> []"
    and wf: "well_formed rows" and no: "non_overlapping rows"
    and before: "\<forall>r\<in>set rows. end_at r < t"
  shows "merged rows t ps ds \<noteq> []"
    and "well_formed (merged rows t ps ds)"
    and "non_overlapping (merged rows t ps ds)"
    and "\<forall>r\<in>set (merged rows t ps ds). end_at r \<le> t"
    and "(plug_state (last (merged rows t ps ds)), device_state (last (merged rows t ps ds)))
          = (ps, ds)"
    and "length (merged rows t ps ds) =
          length rows +
          (if (plug_state (last rows), device_state (last rows)) = (ps, ds) then 0 else 1)"
proof -
  from ne obtain xs x where rows: "rows = xs @ [x]"
    by (cases rows rule: rev_cases) auto
  from wf rows have x: "start x \<le> end_at x" and wfx: "well_formed xs"
    by (auto simp: well_formed_def list_ex_iff)
  from before rows have xt: "end_at x < t" and xst: "\<forall>r\<in>set xs. end_at r < t"
    by auto
  from no rows have nox: "non_overlapping xs" and bx: "\<forall>r\<in>set xs. end_at r < start x"
    by (auto simp: non_overlapping_def sorted_wrt_append)
  show "merged rows t ps ds \<noteq> []"
    by (simp add: rows merged_snoc)
  show "well_formed (merged rows t ps ds)"
    using wfx x xt by (auto simp: rows merged_snoc well_formed_def list_ex_iff)
  show "non_overlapping (merged rows t ps ds)"
    using nox bx xt xst
    by (auto simp: rows merged_snoc non_overlapping_def sorted_wrt_append)
  show "\<forall>r\<in>set (merged rows t ps ds). end_at r \<le> t"
    using xt xst by (auto simp: rows merged_snoc)
  show "(plug_state (last (merged rows t ps ds)), device_state (last (merged rows t ps ds)))
          = (ps, ds)"
    by (simp add: rows merged_snoc)
  show "length (merged rows t ps ds) =
          length rows +
          (if (plug_state (last rows), device_state (last rows)) = (ps, ds) then 0 else 1)"
    by (simp add: rows merged_snoc)
qed

lemma succeeded_call_pair:
  assumes "succeeded (record_cmd e threshold s)"
  obtains P where "call_pair (e, threshold) = Some P"
    and "status_log (db_after (record_cmd e threshold s)) =
           merged (status_log s) (now e) (fst P) (snd P)"
proof -
  from record_cmd_succeeded [OF assms] obtain plug where
    "fetch_plug e = Inr plug"
    and "status_log (db_after (record_cmd e threshold s)) =
           merged (status_log s) (now e) (fst (evaluate_plug_state plug threshold))
             (snd (evaluate_plug_state plug threshold))"
    by auto
  then show ?thesis
    by (intro that [of "evaluate_plug_state plug threshold"]) (simp_all add: call_pair_def)
qed

lemma record_all_chain:
  assumes "all_succeeded calls s"
    and "sorted_wrt (<) (map (\<lambda>c. now (fst c)) calls)"
    and "status_log s \<noteq> []"
    and "well_formed (status_log s)" and "non_overlapping (status_log s)"
    and "\<forall>c\<in>set calls. \<forall>r\<in>set (status_log s). end_at r < now (fst c)"
  shows "well_formed (status_log (record_all calls s)) \<and>
         non_overlapping (status_log (record_all calls s)) \<and>
         length (status_log (record_all calls s)) =
           length (status_log s) +
           transitions (Some (plug_state (last (status_log s)), device_state (last (status_log s)))
                        # map call_pair calls)"
  using assms
proof (induction calls arbitrary: s)
  case Nil
  then show ?case by simp
next
  case (Cons c calls)
  obtain e threshold where c: "c = (e, threshold)" by (cases c)
  let ?s' = "db_after (record_cmd e threshold s)"
  from Cons.prems(1) c have ok: "succeeded (record_cmd e threshold s)"
    and rest: "all_succeeded calls ?s'"
    by simp_all
  from ok obtain P where P: "call_pair (e, threshold) = Some P"
    and log': "status_log ?s' = merged (status_log s) (now e) (fst P) (snd P)"
    by (rule succeeded_call_pair)
  from Cons.prems(6) c have before: "\<forall>r\<in>set (status_log s). end_at r < now e"
    by simp
  note m = merged_invariant [OF Cons.prems(3,4,5) before, of "fst P" "snd P", folded log']
  from Cons.prems(2) c have sorted': "sorted_wrt (<) (map (\<lambda>c. now (fst c)) calls)"
    and later: "\<forall>c'\<in>set calls. now e < now (fst c')"
    by auto
  from m(4) later have before': "\<forall>c'\<in>set calls. \<forall>r\<in>set (status_log ?s'). end_at r < now (fst c')"
    by fastforce
  from Cons.IH [OF rest sorted' m(1) m(2) m(3) before']
  have ih: "well_formed (status_log (record_all calls ?s')) \<and>
      non_overlapping (status_log (record_all calls ?s')) \<and>
      length (status_log (record_all calls ?s')) =
        length (status_log ?s') + transitions (Some P # map call_pair calls)"
    using m(5) by (simp add: prod_eq_iff)
  have "length (status_log ?s') + transitions (Some P # map call_pair calls) =
      length (status_log s) +
      transitions (Some (plug_state (last (status_log s)), device_state (last (status_log s)))
                   # map call_pair (c # calls))"
    using m(6) P c by (auto simp: prod_eq_iff)
  with ih c show ?case by simp
qed

text \<open>
  Claim C1, as amended. For every sequence of recorded samples with strictly increasing
  timestamps that starts from an empty \<^verbatim>\<open>status_log\<close>, the intervals in the table afterwards
  do not overlap and are ordered by their start. For a sequence with at least one sample their
  number is the number of state pair transitions in the sequence plus one; for the empty
  sequence there is no interval.
\<close>

theorem intervals_of_recorded_samples:
  assumes "status_log s = []"
    and "all_succeeded calls s"
    and "sorted_wrt (<) (map (\<lambda>c. now (fst c)) calls)"
  shows "non_overlapping (status_log (record_all calls s)) \<and>
         ordered_by_start (status_log (record_all calls s)) \<and>
         well_formed (status_log (record_all calls s)) \<and>
         length (status_log (record_all calls s)) =
           (if calls = [] then 0 else transitions (map call_pair calls) + 1)"
proof (cases calls)
  case Nil
  with assms(1) show ?thesis
    by (simp add: non_overlapping_def ordered_by_start_def well_formed_def)
next
  case (Cons c rest)
  obtain e threshold where c: "c = (e, threshold)" by (cases c)
  let ?s' = "db_after (record_cmd e threshold s)"
  from assms(2) Cons c have ok: "succeeded (record_cmd e threshold s)"
    and rest: "all_succeeded rest ?s'"
    by simp_all
  from ok obtain P where P: "call_pair (e, threshold) = Some P"
    and "status_log ?s' = merged (status_log s) (now e) (fst P) (snd P)"
    by (rule succeeded_call_pair)
  with assms(1) have log': "status_log ?s' =
      [\<lparr> start = now e, end_at = now e, plug_state = fst P, device_state = snd P \<rparr>]"
    by (simp add: merged_Nil)
  from assms(3) Cons c have sorted': "sorted_wrt (<) (map (\<lambda>c. now (fst c)) rest)"
    and later: "\<forall>c'\<in>set rest. now e < now (fst c')"
    by auto
  have ne: "status_log ?s' \<noteq> []" and wf: "well_formed (status_log ?s')"
    and no: "non_overlapping (status_log ?s')"
    by (simp_all add: log' well_formed_def non_overlapping_def)
  from later have before: "\<forall>c'\<in>set rest. \<forall>r\<in>set (status_log ?s'). end_at r < now (fst c')"
    by (simp add: log')
  from record_all_chain [OF rest sorted' ne wf no before]
  have "well_formed (status_log (record_all rest ?s'))"
    and "non_overlapping (status_log (record_all rest ?s'))"
    and "length (status_log (record_all rest ?s')) =
           1 + transitions (Some P # map call_pair rest)"
    by (simp_all add: log')
  with Cons c P ordered_from_non_overlapping [of "status_log (record_all rest ?s')"]
  show ?thesis by simp
qed

theorem intervals_of_recorded_samples_witness:
  "status_log (record_all [(sampling 600 (payload True 1500), 5),
                           (sampling 660 (payload True 1500), 5),
                           (sampling 720 (payload False 0), 5)] empty_store)
   = [\<lparr> start = 600, end_at = 660, plug_state = ''On'', device_state = ''On'' \<rparr>,
      \<lparr> start = 720, end_at = 720, plug_state = ''Off'', device_state = ''Off'' \<rparr>] \<and>
   non_overlapping (status_log (record_all [(sampling 600 (payload True 1500), 5),
                           (sampling 660 (payload True 1500), 5),
                           (sampling 720 (payload False 0), 5)] empty_store)) \<and>
   ordered_by_start (status_log (record_all [(sampling 600 (payload True 1500), 5),
                           (sampling 660 (payload True 1500), 5),
                           (sampling 720 (payload False 0), 5)] empty_store)) \<and>
   length (status_log (record_all [(sampling 600 (payload True 1500), 5),
                           (sampling 660 (payload True 1500), 5),
                           (sampling 720 (payload False 0), 5)] empty_store))
   = transitions (map call_pair [(sampling 600 (payload True 1500), 5),
                           (sampling 660 (payload True 1500), 5),
                           (sampling 720 (payload False 0), 5)]) + 1"
proof -
  let ?calls = "[(sampling 600 (payload True 1500), 5 :: real),
                 (sampling 660 (payload True 1500), 5),
                 (sampling 720 (payload False 0), 5)]"
  have 1: "status_log empty_store = []" by (simp add: empty_store_def)
  have 2: "all_succeeded ?calls empty_store"
    by (simp add: succeeded_payload [OF reading_1500] succeeded_payload [OF reading_0])
  have 3: "sorted_wrt (<) (map (\<lambda>c. now (fst c)) ?calls)" by (simp add: sampling_fields)
  have 4: "status_log (record_all ?calls empty_store)
      = [\<lparr> start = 600, end_at = 660, plug_state = ''On'', device_state = ''On'' \<rparr>,
         \<lparr> start = 720, end_at = 720, plug_state = ''Off'', device_state = ''Off'' \<rparr>]"
    by (simp add: record_payload [OF reading_1500] record_payload [OF reading_0]
        empty_store_def merged_def)
  from intervals_of_recorded_samples [OF 1 2 3] 4 show ?thesis by simp
qed

text \<open>
  Claim C1 as it is stated fails for the empty sequence of samples: the table stays empty,
  while the number of transitions plus one is one.
\<close>

theorem no_samples_no_interval_counterexample:
  "status_log empty_store = [] \<and>
   all_succeeded [] empty_store \<and>
   sorted_wrt (<) (map (\<lambda>c. now (fst c)) []) \<and>
   length (status_log (record_all [] empty_store)) \<noteq> transitions (map call_pair []) + 1"
  by (simp add: empty_store_def)

section \<open>Properties of the report\<close>




























end
